theory Spec2Isabelle
  imports Complex_Main "HOL-Library.Char_ord" "HOL-Library.List_Lexorder"
begin

section \<open>The data frame\<close>

text \<open>
  \<^verbatim>\<open>app.py\<close> keeps one pandas \<^verbatim>\<open>DataFrame\<close>, \<^verbatim>\<open>df\<close>, and passes it through the
  sections of the page. The frame is modelled as its ordered column labels with their
  dtypes and its rows; a cell is \<open>None\<close> where pandas has a missing value (NaN / None),
  so every row operation keeps all columns at one shared length.

  The type \<open>'n\<close> stands for the numbers a frame holds: the int64 and float64 values
  other than NaN, infinities included, in their order. No arithmetic on them is defined
  here: the mean and the median of a column are computed by pandas and enter as
  parameters.

  A column label is what the header cell held: text, or a number (a spreadsheet header
  may be numeric). \<open>PyNone\<close> is Python's \<^verbatim>\<open>None\<close>, which a select box without options
  returns in place of a label.
\<close>

datatype 'n label = Text string | Number 'n | PyNone

datatype 'n val = Num 'n | Str string

type_synonym 'n cell = "'n val option"

datatype dtype = Int64 | Float64 | Object | Category | Bool

record 'n dataframe =
  columns :: "('n label \<times> dtype) list"
  rows :: "'n cell list list"

text \<open>
  The exceptions of pandas that reach the script. A \<^verbatim>\<open>KeyError\<close> carries the key that
  was not found: a label (\<^verbatim>\<open>df[col]\<close>), a list of labels (\<^verbatim>\<open>dropna(subset=[col])\<close>), or
  a position in an index (\<^verbatim>\<open>mode()[0]\<close>).
\<close>

datatype 'n key = Label "'n label" | Labels "'n label list" | Position nat

datatype 'n exn = KeyError "'n key"

datatype fill_method = Mean | Median | Mode | DropRows

text \<open>What the script shows on the page.\<close>

datatype 'n chart =
    Histplot "'n cell list"
  | Countplot "'n cell list"
  | Scatterplot "'n cell list" "'n cell list"
  | Boxplot "'n cell list"

datatype 'n event =
    ErrorMsg string
  | SuccessMsg string
  | CleanedMsg "'n label" fill_method
  | InfoMsg string
  | WriteFound nat
  | ShowMissing "('n label \<times> nat) list"
  | Pyplot "'n chart"
  | Uncaught "'n exn"

text \<open>
  \<open>CleanedMsg col method\<close> is the success message
  \<^verbatim>\<open>f"Cleaned column '{col}' using {method}."\<close>; \<open>Uncaught e\<close> is an exception that no
  \<^verbatim>\<open>except\<close> of the script catches, which ends the script run where it is raised.
\<close>

definition is_error_message :: "'n event \<Rightarrow> bool" where
  "is_error_message e = (case e of ErrorMsg m \<Rightarrow> True | _ \<Rightarrow> False)"

definition is_uncaught :: "'n event \<Rightarrow> bool" where
  "is_uncaught e = (case e of Uncaught x \<Rightarrow> True | _ \<Rightarrow> False)"

definition is_error :: "'n event \<Rightarrow> bool" where
  "is_error e \<longleftrightarrow> is_error_message e \<or> is_uncaught e"


text \<open>
  The invariant of a frame: every row has one cell per column, and the column labels
  are unique (\<^verbatim>\<open>read_csv\<close> and \<^verbatim>\<open>read_excel\<close> rename repeated headers).
\<close>

definition wf_frame :: "'n dataframe \<Rightarrow> bool" where
  "wf_frame df \<longleftrightarrow>
     distinct (map fst (columns df)) \<and>
     list_all (\<lambda>r. length r = length (columns df)) (rows df)"

subsection \<open>Column access\<close>

fun col_index :: "'n label \<Rightarrow> ('n label \<times> dtype) list \<Rightarrow> nat option" where
  "col_index k [] = None"
| "col_index k (c # cs) =
     (if fst c = k then Some 0 else map_option Suc (col_index k cs))"

text \<open>The cells of the column at position \<open>j\<close>, top to bottom.\<close>

definition series :: "'n dataframe \<Rightarrow> nat \<Rightarrow> 'n cell list" where
  "series df j = map (\<lambda>r. r ! j) (rows df)"

text \<open>
  Writing a column back in place, as \<^verbatim>\<open>df[col].fillna(..., inplace=True)\<close> does
  where \<^verbatim>\<open>df[col]\<close> is a view of the frame (pandas without copy-on-write, which the
  script relies on).
\<close>

definition set_series :: "'n dataframe \<Rightarrow> nat \<Rightarrow> 'n cell list \<Rightarrow> 'n dataframe" where
  "set_series df j s = df\<lparr>rows := map2 (\<lambda>r x. r[j := x]) (rows df) s\<rparr>"

subsection \<open>Series aggregates\<close>

fun non_null :: "'n cell list \<Rightarrow> 'n val list" where
  "non_null [] = []"
| "non_null (None # xs) = non_null xs"
| "non_null (Some v # xs) = v # non_null xs"

fun is_num :: "'n val \<Rightarrow> bool" where
  "is_num (Num r) = True"
| "is_num (Str s) = False"

fun is_str :: "'n val \<Rightarrow> bool" where
  "is_str (Num r) = False"
| "is_str (Str s) = True"

fun nums_of :: "'n val list \<Rightarrow> 'n list" where
  "nums_of [] = []"
| "nums_of (Num r # vs) = r # nums_of vs"
| "nums_of (Str s # vs) = nums_of vs"

fun strs_of :: "'n val list \<Rightarrow> string list" where
  "strs_of [] = []"
| "strs_of (Str s # vs) = s # strs_of vs"
| "strs_of (Num r # vs) = strs_of vs"

text \<open>The numbers of a column, missing cells skipped.\<close>

definition numbers :: "'n cell list \<Rightarrow> 'n list" where
  "numbers s = nums_of (non_null s)"

text \<open>
  \<^verbatim>\<open>Series.mean()\<close> and \<^verbatim>\<open>Series.median()\<close> of a numeric column: pandas computes them
  in float64 from the non-missing numbers. They are parameters here, each giving a
  number or \<open>None\<close> for NaN (as over no numbers at all).
\<close>

record 'n aggregates =
  mean :: "'n list \<Rightarrow> 'n option"
  median :: "'n list \<Rightarrow> 'n option"

text \<open>
  \<^verbatim>\<open>Series.mode()\<close>: pandas counts the non-missing values in a hash table that keeps
  the keys in order of first appearance, keeps the keys whose count is the largest, and
  then sorts them (\<^verbatim>\<open>np.sort\<close>); when the values cannot be compared with each other
  (numbers with text) the sort is abandoned with a warning and the order of first
  appearance stays.
\<close>

fun first_seen :: "'a list \<Rightarrow> 'a list" where
  "first_seen [] = []"
| "first_seen (x # xs) = x # first_seen (filter (\<lambda>y. y \<noteq> x) xs)"

definition max_count :: "'a list \<Rightarrow> nat" where
  "max_count vs = fold max (map (count_list vs) vs) 0"

definition tied :: "'a list \<Rightarrow> 'a list" where
  "tied vs = filter (\<lambda>k. count_list vs k = max_count vs) (first_seen vs)"

definition sortable :: "'n val list \<Rightarrow> bool" where
  "sortable ms \<longleftrightarrow> list_all is_num ms \<or> list_all is_str ms"

definition sort_values :: "('n::linorder) val list \<Rightarrow> 'n val list" where
  "sort_values ms =
     (if list_all is_num ms then map Num (sort (nums_of ms))
      else if list_all is_str ms then map Str (sort (strs_of ms))
      else ms)"

definition mode :: "('n::linorder) cell list \<Rightarrow> 'n val list" where
  "mode s = sort_values (tied (non_null s))"

text \<open>\<^verbatim>\<open>mode()[0]\<close>: label 0 of the result, \<^verbatim>\<open>KeyError: 0\<close> when there is no mode.\<close>

definition mode0 :: "('n::linorder) cell list \<Rightarrow> 'n exn + 'n cell" where
  "mode0 s = (case mode s of [] \<Rightarrow> Inl (KeyError (Position 0)) | m # ms \<Rightarrow> Inr (Some m))"

text \<open>\<^verbatim>\<open>fillna(value)\<close>: filling with NaN leaves the missing cells missing.\<close>

definition fillna :: "'n cell \<Rightarrow> 'n cell list \<Rightarrow> 'n cell list" where
  "fillna fill_value s = map (\<lambda>x. case x of None \<Rightarrow> fill_value | Some v \<Rightarrow> Some v) s"

section \<open>Statements that read and write the frame\<close>

text \<open>
  A statement of the script runs on the frame and leaves a frame behind; it ends with
  a value or with an exception. When a statement raises, the statements after it do not
  run, and the frame is the one the raising statement left.
\<close>

type_synonym ('n, 'a) cmd = "'n dataframe \<Rightarrow> ('n exn + 'a) \<times> 'n dataframe"

definition reading :: "('n dataframe \<Rightarrow> 'n exn + 'a) \<Rightarrow> ('n, 'a) cmd" where
  "reading f df = (f df, df)"

definition writing :: "('n dataframe \<Rightarrow> 'n dataframe) \<Rightarrow> ('n, unit) cmd" where
  "writing g df = (Inr (), g df)"

definition and_then :: "('n, 'a) cmd \<Rightarrow> ('a \<Rightarrow> ('n, 'b) cmd) \<Rightarrow> ('n, 'b) cmd" where
  "and_then c k df =
     (case c df of
        (Inl e, df') \<Rightarrow> (Inl e, df')
      | (Inr x, df') \<Rightarrow> k x df')"

text \<open>
  \<^verbatim>\<open>df[col]\<close>: the column with that label, as a view of the frame at the column's
  position; \<^verbatim>\<open>KeyError(col)\<close> when no column has the label.
\<close>

definition getitem :: "'n label \<Rightarrow> ('n, nat) cmd" where
  "getitem col =
     reading (\<lambda>df. case col_index col (columns df) of
                      None \<Rightarrow> Inl (KeyError (Label col))
                    | Some j \<Rightarrow> Inr j)"

definition series_dtype :: "nat \<Rightarrow> ('n, dtype) cmd" where
  "series_dtype j = reading (\<lambda>df. Inr (snd (columns df ! j)))"

definition series_mean :: "'n aggregates \<Rightarrow> nat \<Rightarrow> ('n, 'n cell) cmd" where
  "series_mean agg j = reading (\<lambda>df. Inr (map_option Num (mean agg (numbers (series df j)))))"

definition series_median :: "'n aggregates \<Rightarrow> nat \<Rightarrow> ('n, 'n cell) cmd" where
  "series_median agg j =
     reading (\<lambda>df. Inr (map_option Num (median agg (numbers (series df j)))))"

definition series_mode0 :: "nat \<Rightarrow> ('n::linorder, 'n cell) cmd" where
  "series_mode0 j = reading (\<lambda>df. mode0 (series df j))"

definition fillna_inplace :: "'n cell \<Rightarrow> nat \<Rightarrow> ('n, unit) cmd" where
  "fillna_inplace fill_value j = writing (\<lambda>df. set_series df j (fillna fill_value (series df j)))"

text \<open>
  \<^verbatim>\<open>df.dropna(subset=[col], inplace=True)\<close>: the rows whose cell in the column is
  missing go; \<^verbatim>\<open>KeyError([col])\<close>, before anything is written, when no column has the
  label.
\<close>

definition dropna_subset :: "'n label \<Rightarrow> ('n, unit) cmd" where
  "dropna_subset col df =
     (case col_index col (columns df) of
        None \<Rightarrow> (Inl (KeyError (Labels [col])), df)
      | Some j \<Rightarrow> (Inr (), df\<lparr>rows := filter (\<lambda>r. r ! j \<noteq> None) (rows df)\<rparr>))"

section \<open>Handling missing values\<close>

text \<open>
  The body of the \<^verbatim>\<open>Apply Cleaning\<close> button (lines 68 to 81), statement by statement;
  every \<^verbatim>\<open>df[selected_col_missing]\<close> of the script is a \<open>getitem\<close> here.
\<close>

definition apply_cleaning ::
  "('n::linorder) aggregates \<Rightarrow> 'n label \<Rightarrow> fill_method \<Rightarrow> ('n, unit) cmd" where
  "apply_cleaning agg selected_col_missing method =
     (if method = DropRows then dropna_subset selected_col_missing
      else
        and_then (and_then (getitem selected_col_missing) series_dtype) (\<lambda>dtype.
          if dtype \<in> {Int64, Float64} then
            and_then
              (if method = Mean then
                 and_then (getitem selected_col_missing) (series_mean agg)
               else if method = Median then
                 and_then (getitem selected_col_missing) (series_median agg)
               else
                 and_then (getitem selected_col_missing) series_mode0)
              (\<lambda>fill_value.
                 and_then (getitem selected_col_missing) (fillna_inplace fill_value))
          else
            and_then
              (and_then (getitem selected_col_missing) series_mode0)
              (\<lambda>fill_value.
                 and_then (getitem selected_col_missing) (fillna_inplace fill_value))))"

text \<open>
  One click: the frame after it and what is shown. The success message is the
  statement after the branches (line 82); an exception is caught nowhere.
\<close>

definition on_apply_cleaning ::
  "('n::linorder) aggregates \<Rightarrow> 'n dataframe \<Rightarrow> 'n label \<Rightarrow> fill_method
     \<Rightarrow> 'n dataframe \<times> 'n event list" where
  "on_apply_cleaning agg df col method =
     (case apply_cleaning agg col method df of
        (Inl e, df') \<Rightarrow> (df', [Uncaught e])
      | (Inr u, df') \<Rightarrow> (df', [CleanedMsg col method]))"




text \<open>
  \<^verbatim>\<open>st.selectbox(label, options, index)\<close>: \<^verbatim>\<open>None\<close> when there is nothing to choose
  from, otherwise the option the user picked, the one at \<open>index\<close> before any pick.
  The script passes 0, or 1 where there are two options or more.
\<close>

definition selectbox :: "'n label list \<Rightarrow> nat \<Rightarrow> nat option \<Rightarrow> 'n label" where
  "selectbox options index pick =
     (if options = [] then PyNone
      else
        case pick of
          None \<Rightarrow> options ! index
        | Some i \<Rightarrow> options ! (if i < length options then i else index))"


section \<open>Removing duplicates\<close>

text \<open>
  \<^verbatim>\<open>df.duplicated()\<close> marks a row that equals, in every column, a row above it; two
  missing cells count as equal. \<^verbatim>\<open>drop_duplicates\<close> keeps the unmarked rows.
\<close>

fun duplicated_from :: "'a list \<Rightarrow> 'a list \<Rightarrow> bool list" where
  "duplicated_from seen [] = []"
| "duplicated_from seen (r # rs) = (r \<in> set seen) # duplicated_from (seen @ [r]) rs"

definition duplicated :: "'n dataframe \<Rightarrow> bool list" where
  "duplicated df = duplicated_from [] (rows df)"

definition select :: "bool list \<Rightarrow> 'a list \<Rightarrow> 'a list" where
  "select keep xs = map snd (filter fst (zip keep xs))"

definition drop_duplicates :: "'n dataframe \<Rightarrow> 'n dataframe" where
  "drop_duplicates df = df\<lparr>rows := select (map Not (duplicated df)) (rows df)\<rparr>"

definition remove_duplicates_section ::
  "'n dataframe \<Rightarrow> bool \<Rightarrow> 'n dataframe \<times> 'n event list" where
  "remove_duplicates_section df clicked =
     (let n = length (filter id (duplicated df)) in
      if n > 0 then
        (if clicked
         then (drop_duplicates df, [WriteFound n, SuccessMsg ''Duplicate rows removed.''])
         else (df, [WriteFound n]))
      else (df, [InfoMsg ''No duplicate rows found.'']))"

section \<open>Loading\<close>

text \<open>
  The uploaded file is its name and its content. \<^verbatim>\<open>pd.read_csv\<close> and
  \<^verbatim>\<open>pd.read_excel\<close> are parameters: each gives a frame or raises, \<open>Inl\<close> carrying the
  text of the exception.
\<close>

record 'b uploaded_file =
  name :: string
  content :: 'b

definition endswith :: "string \<Rightarrow> string \<Rightarrow> bool" where
  "endswith s suffix \<longleftrightarrow>
     length suffix \<le> length s \<and> drop (length s - length suffix) s = suffix"

definition load_data ::
  "('b \<Rightarrow> string + 'n dataframe) \<Rightarrow> ('b \<Rightarrow> string + 'n dataframe) \<Rightarrow> 'b uploaded_file
     \<Rightarrow> 'n dataframe option \<times> 'n event list" where
  "load_data read_csv read_excel file =
     (if endswith (name file) ''.csv'' then
        (case read_csv (content file) of
           Inr df \<Rightarrow> (Some df, [])
         | Inl e \<Rightarrow> (None, [ErrorMsg (''Error reading file: '' @ e)]))
      else if endswith (name file) ''.xls'' \<or> endswith (name file) ''.xlsx'' then
        (case read_excel (content file) of
           Inr df \<Rightarrow> (Some df, [])
         | Inl e \<Rightarrow> (None, [ErrorMsg (''Error reading file: '' @ e)]))
      else (None, []))"

section \<open>Visualisation\<close>



text \<open>
  Python's truth value of a selection, the test \<^verbatim>\<open>if selected_col:\<close>: \<^verbatim>\<open>None\<close>,
  the empty string and the number zero are false.
\<close>

fun truthy :: "('n::zero) label \<Rightarrow> bool" where
  "truthy PyNone = False"
| "truthy (Text s) = (s \<noteq> [])"
| "truthy (Number n) = (n \<noteq> 0)"

definition plot_one ::
  "('n cell list \<Rightarrow> 'n chart) \<Rightarrow> ('n::zero) dataframe \<Rightarrow> 'n label \<Rightarrow> 'n event list" where
  "plot_one kind df selected_col =
     (if truthy selected_col then
        (case fst (getitem selected_col df) of
           Inl e \<Rightarrow> [Uncaught e]
         | Inr j \<Rightarrow> [Pyplot (kind (series df j))])
      else [])"


section \<open>The page below the overview\<close>



section \<open>Notions used in the statements\<close>

text \<open>
  The order in which the modes are sorted: numbers by size, text as Python compares
  strings; a number and a text are not comparable.
\<close>

fun val_le :: "('n::linorder) val \<Rightarrow> 'n val \<Rightarrow> bool" where
  "val_le (Num a) (Num b) \<longleftrightarrow> a \<le> b"
| "val_le (Str a) (Str b) \<longleftrightarrow> a \<le> b"
| "val_le (Num a) (Str b) \<longleftrightarrow> False"
| "val_le (Str a) (Num b) \<longleftrightarrow> False"

definition null_count :: "'n cell list \<Rightarrow> nat" where
  "null_count s = length (filter (\<lambda>x. x = None) s)"

text \<open>
  The tie-break as the specification words it: among the values of the largest count,
  the one met first going down the rows.
\<close>

definition first_most_frequent :: "'n cell list \<Rightarrow> 'n cell" where
  "first_most_frequent s =
     (let vs = non_null s in find (\<lambda>v. count_list vs v = max_count vs) vs)"

text \<open>The value a fill method computes for the column at position \<open>j\<close>.\<close>

definition fill_value_of ::
  "('n::linorder) aggregates \<Rightarrow> 'n dataframe \<Rightarrow> nat \<Rightarrow> fill_method \<Rightarrow> 'n exn + 'n cell" where
  "fill_value_of agg df j method =
     (if snd (columns df ! j) \<in> {Int64, Float64} then
        (if method = Mean then Inr (map_option Num (mean agg (numbers (series df j))))
         else if method = Median then Inr (map_option Num (median agg (numbers (series df j))))
         else mode0 (series df j))
      else mode0 (series df j))"

text \<open>Filling the missing cells of the column at position \<open>j\<close> with its mode.\<close>

definition fill_with_mode :: "nat \<Rightarrow> ('n::linorder, unit) cmd" where
  "fill_with_mode j = and_then (series_mode0 j) (\<lambda>fill_value. fillna_inplace fill_value j)"

text \<open>The rows that differ from every row above them, in their order.\<close>

definition first_occurrences :: "'a list \<Rightarrow> 'a list" where
  "first_occurrences rs =
     map (\<lambda>i. rs ! i)
       (filter (\<lambda>i. list_all (\<lambda>j. rs ! j \<noteq> rs ! i) [0..<i]) [0..<length rs])"

section \<open>Sample frames\<close>

text \<open>
  The numbers of the samples are few small whole numbers, on which float64 arithmetic is
  exact; for them the mean and the median of pandas are the exact ones below, NaN over
  no numbers.
\<close>

definition exact_mean :: "real list \<Rightarrow> real option" where
  "exact_mean xs = (if xs = [] then None else Some (sum_list xs / real (length xs)))"

definition exact_median :: "real list \<Rightarrow> real option" where
  "exact_median xs =
     (if xs = [] then None
      else
        let ys = sort xs; n = length ys in
        if odd n then Some (ys ! (n div 2))
        else Some ((ys ! (n div 2 - 1) + ys ! (n div 2)) / 2))"

definition sample_aggregates :: "real aggregates" where
  "sample_aggregates = \<lparr>mean = exact_mean, median = exact_median\<rparr>"

definition xy_column :: "real cell list" where
  "xy_column =
     [Some (Str ''x''), Some (Str ''y''), Some (Str ''x''), Some (Str ''y''), None]"

definition yx_column :: "real cell list" where
  "yx_column =
     [Some (Str ''y''), Some (Str ''x''), None, Some (Str ''y''), Some (Str ''x'')]"

definition xy_frame :: "real dataframe" where
  "xy_frame = \<lparr>columns = [(Text ''tag'', Object)], rows = map (\<lambda>c. [c]) xy_column\<rparr>"

definition yx_frame :: "real dataframe" where
  "yx_frame = \<lparr>columns = [(Text ''tag'', Object)], rows = map (\<lambda>c. [c]) yx_column\<rparr>"

definition age_frame :: "real dataframe" where
  "age_frame =
     \<lparr>columns = [(Text ''age'', Float64)],
      rows = [[Some (Num 20)], [Some (Num 30)], [None], [Some (Num 40)]]\<rparr>"

definition empty_age_frame :: "real dataframe" where
  "empty_age_frame = \<lparr>columns = [(Text ''age'', Float64)], rows = [[None], [None]]\<rparr>"

definition city_frame :: "real dataframe" where
  "city_frame =
     \<lparr>columns = [(Text ''id'', Int64), (Text ''city'', Object)],
      rows = [[Some (Num 1), Some (Str ''Oslo'')],
              [Some (Num 2), None],
              [Some (Num 3), Some (Str ''Oslo'')],
              [Some (Num 4), Some (Str ''Bergen'')]]\<rparr>"

definition pairs_frame :: "real dataframe" where
  "pairs_frame =
     \<lparr>columns = [(Text ''k'', Int64), (Text ''s'', Object)],
      rows = [[Some (Num 1), Some (Str ''a'')],
              [Some (Num 1), Some (Str ''a'')],
              [Some (Num 2), Some (Str ''b'')]]\<rparr>"


definition text_upload :: "string uploaded_file" where
  "text_upload = \<lparr>name = ''data.txt'', content = ''k,s''\<rparr>"

definition csv_upload :: "string uploaded_file" where
  "csv_upload = \<lparr>name = ''data.csv'', content = ''k,s''\<rparr>"

definition accepting_parser :: "string \<Rightarrow> string + real dataframe" where
  "accepting_parser bytes = Inr pairs_frame"

definition rejecting_parser :: "string \<Rightarrow> string + real dataframe" where
  "rejecting_parser bytes = Inl ''No columns to parse from file''"



section \<open>Frames, columns and aggregates: basic facts\<close>

lemma col_index_Some: "col_index k cs = Some j \<Longrightarrow> j < length cs \<and> fst (cs ! j) = k"
  by (induction cs arbitrary: j) (auto split: if_splits)



lemma map2_update_nth:
  "length s = length rs \<Longrightarrow> \<forall>r\<in>set rs. j < length r \<Longrightarrow>
     map (\<lambda>r. r ! j) (map2 (\<lambda>r x. r[j := x]) rs s) = s"
  by (induction s rs rule: list_induct2) auto

lemma map2_update_other:
  "length s = length rs \<Longrightarrow> k \<noteq> j \<Longrightarrow>
     map (\<lambda>r. r ! k) (map2 (\<lambda>r x. r[j := x]) rs s) = map (\<lambda>r. r ! k) rs"
  by (induction s rs rule: list_induct2) auto

lemma wf_row_length: "wf_frame df \<Longrightarrow> r \<in> set (rows df) \<Longrightarrow> length r = length (columns df)"
  by (auto simp: wf_frame_def list_all_iff)

lemma length_series [simp]: "length (series df j) = length (rows df)"
  by (simp add: series_def)

lemma length_fillna [simp]: "length (fillna v s) = length s"
  by (simp add: fillna_def)

lemma series_set_series:
  "wf_frame df \<Longrightarrow> j < length (columns df) \<Longrightarrow> length s = length (rows df) \<Longrightarrow>
     series (set_series df j s) j = s"
  by (simp add: series_def set_series_def map2_update_nth wf_row_length del: map_map)

lemma series_set_series_other:
  "length s = length (rows df) \<Longrightarrow> k \<noteq> j \<Longrightarrow> series (set_series df j s) k = series df k"
  by (simp add: series_def set_series_def map2_update_other del: map_map)

lemma columns_set_series [simp]: "columns (set_series df j s) = columns df"
  by (simp add: set_series_def)

lemma length_rows_set_series:
  "length s = length (rows df) \<Longrightarrow> length (rows (set_series df j s)) = length (rows df)"
  by (simp add: set_series_def)

lemma non_null_empty: "non_null s = [] \<longleftrightarrow> (\<forall>x\<in>set s. x = None)"
  by (induction s rule: non_null.induct) auto

lemma set_non_null: "set (non_null s) = {v. Some v \<in> set s}"
  by (induction s rule: non_null.induct) auto

lemma fillna_Some_no_null: "None \<notin> set (fillna (Some v) s)"
  by (auto simp: fillna_def split: option.splits)

lemma fillna_nth:
  "i < length s \<Longrightarrow> fillna v s ! i = (case s ! i of None \<Rightarrow> v | Some w \<Rightarrow> Some w)"
  by (simp add: fillna_def)

lemma null_count_zero: "null_count s = 0 \<longleftrightarrow> None \<notin> set s"
  by (induction s) (auto simp: null_count_def)

lemma nums_of_all: "list_all is_num ms \<Longrightarrow> map Num (nums_of ms) = ms"
  by (induction ms rule: nums_of.induct) auto

lemma strs_of_all: "list_all is_str ms \<Longrightarrow> map Str (strs_of ms) = ms"
  by (induction ms rule: strs_of.induct) auto

subsection \<open>The mode\<close>

lemma set_first_seen [simp]: "set (first_seen xs) = set xs"
  by (induction xs rule: first_seen.induct) auto

lemma fold_max_Max: "fold max (ys::nat list) 0 = Max (set (0 # ys))"
  using Max.set_eq_fold [of 0 ys] by simp

lemma count_le_max_count: "count_list vs v \<le> max_count vs"
proof (cases "v \<in> set vs")
  case True
  then have "count_list vs v \<in> set (0 # map (count_list vs) vs)" by simp
  then show ?thesis
    unfolding max_count_def fold_max_Max by (intro Max_ge) auto
next
  case False
  then show ?thesis by simp
qed

lemma max_count_attained: "vs \<noteq> [] \<Longrightarrow> \<exists>v\<in>set vs. count_list vs v = max_count vs"
proof -
  assume ne: "vs \<noteq> []"
  have "Max (set (0 # map (count_list vs) vs)) \<in> set (0 # map (count_list vs) vs)"
    by (intro Max_in) auto
  then have "max_count vs = 0 \<or> (\<exists>v\<in>set vs. count_list vs v = max_count vs)"
    unfolding max_count_def fold_max_Max by auto
  moreover have "max_count vs > 0"
  proof -
    from ne obtain v where v: "v \<in> set vs" by (cases vs) auto
    then have "count_list vs v > 0" using count_list_0_iff [of vs v] by auto
    with count_le_max_count [of vs v] show ?thesis by linarith
  qed
  ultimately show ?thesis by auto
qed

lemma set_tied: "set (tied vs) = {v \<in> set vs. count_list vs v = max_count vs}"
  by (auto simp: tied_def)

lemma tied_nonempty: "vs \<noteq> [] \<Longrightarrow> tied vs \<noteq> []"
proof -
  assume "vs \<noteq> []"
  then obtain v where "v \<in> set (tied vs)"
    using max_count_attained [of vs] by (auto simp: set_tied)
  then show ?thesis by auto
qed

lemma find_skips: "\<not> P x \<Longrightarrow> find P (filter (\<lambda>y. y \<noteq> x) xs) = find P xs"
  by (induction xs) auto

lemma filter_first_seen_head:
  "filter P (first_seen xs) = m # rest \<Longrightarrow> find P xs = Some m"
proof (induction xs rule: first_seen.induct)
  case 1
  then show ?case by simp
next
  case (2 x xs)
  show ?case
  proof (cases "P x")
    case True
    with "2.prems" show ?thesis by simp
  next
    case False
    with "2.prems" have "filter P (first_seen (filter (\<lambda>y. y \<noteq> x) xs)) = m # rest" by simp
    then have "find P (filter (\<lambda>y. y \<noteq> x) xs) = Some m" by (rule "2.IH")
    with False show ?thesis by (simp add: find_skips)
  qed
qed

lemma tied_head_first: "tied vs = m # rest \<Longrightarrow> find (\<lambda>v. count_list vs v = max_count vs) vs = Some m"
  unfolding tied_def by (rule filter_first_seen_head)

lemma set_sort_values [simp]: "set (sort_values ms) = set ms"
proof -
  have "list_all is_num ms \<Longrightarrow> set (map Num (sort (nums_of ms))) = set ms"
    using nums_of_all [of ms] by (metis set_map set_sort)
  moreover have "list_all is_str ms \<Longrightarrow> set (map Str (sort (strs_of ms))) = set ms"
    using strs_of_all [of ms] by (metis set_map set_sort)
  ultimately show ?thesis by (simp add: sort_values_def)
qed

lemma set_mode:
  "set (mode s) = {v \<in> set (non_null s). count_list (non_null s) v = max_count (non_null s)}"
  by (simp add: mode_def set_tied)

lemma mode_nonempty: "non_null s \<noteq> [] \<Longrightarrow> mode s \<noteq> []"
proof -
  assume "non_null s \<noteq> []"
  then have "tied (non_null s) \<noteq> []" by (rule tied_nonempty)
  then have "set (mode s) \<noteq> {}" by (simp add: mode_def)
  then show ?thesis by auto
qed

lemma mode0_Inr:
  "non_null s \<noteq> [] \<Longrightarrow> \<exists>m ms. mode s = m # ms \<and> mode0 s = Inr (Some m)"
  using mode_nonempty [of s] by (cases "mode s") (auto simp: mode0_def)



lemma sorted_head_least: "sort xs = a # as \<Longrightarrow> b \<in> set xs \<Longrightarrow> a \<le> b"
proof -
  assume h: "sort xs = a # as" and b: "b \<in> set xs"
  have "sorted (sort xs)" by simp
  with h have "sorted (a # as)" by simp
  moreover have "set (sort xs) = set xs" by simp
  with h b have "b \<in> set (a # as)" by simp
  ultimately show ?thesis by auto
qed

lemma sort_values_head_least:
  assumes "sortable ms" and "sort_values ms = m # rest" and "v \<in> set ms"
  shows "val_le m v"
proof (cases "list_all is_num ms")
  case True
  with assms(2) have eq: "map Num (sort (nums_of ms)) = m # rest"
    by (simp add: sort_values_def)
  then obtain a as where a: "sort (nums_of ms) = a # as" "m = Num a"
    by (cases "sort (nums_of ms)") auto
  from True assms(3) obtain b where b: "v = Num b"
    by (cases v) (auto simp: list_all_iff)
  have "set ms = Num ` set (nums_of ms)" using nums_of_all [OF True] by (metis set_map)
  then have "b \<in> set (nums_of ms)" using assms(3) b by auto
  with a(1) have "a \<le> b" by (rule sorted_head_least)
  with a(2) b show ?thesis by simp
next
  case False
  with assms(1) have str: "list_all is_str ms" by (simp add: sortable_def)
  with False assms(2) have eq: "map Str (sort (strs_of ms)) = m # rest"
    by (simp add: sort_values_def)
  then obtain a as where a: "sort (strs_of ms) = a # as" "m = Str a"
    by (cases "sort (strs_of ms)") auto
  from str assms(3) obtain b where b: "v = Str b"
    by (cases v) (auto simp: list_all_iff)
  have "set ms = Str ` set (strs_of ms)" using strs_of_all [OF str] by (metis set_map)
  then have "b \<in> set (strs_of ms)" using assms(3) b by auto
  with a(1) have "a \<le> b" by (rule sorted_head_least)
  with a(2) b show ?thesis by simp
qed

lemma mode_head_least:
  assumes "sortable (tied (non_null s))" and "mode s = m # rest"
    and "v \<in> set (non_null s)" and "count_list (non_null s) v = max_count (non_null s)"
  shows "val_le m v"
proof -
  have "sort_values (tied (non_null s)) = m # rest" using assms(2) by (simp add: mode_def)
  moreover have "v \<in> set (tied (non_null s))" using assms(3,4) by (simp add: set_tied)
  ultimately show ?thesis using assms(1) sort_values_head_least by blast
qed

lemma mode_head_first:
  assumes "\<not> sortable (tied (non_null s))" and "mode s = m # rest"
  shows "first_most_frequent s = Some m"
proof -
  have "sort_values (tied (non_null s)) = tied (non_null s)"
    using assms(1) by (simp add: sort_values_def sortable_def)
  with assms(2) have "tied (non_null s) = m # rest" by (simp add: mode_def)
  then show ?thesis by (simp add: first_most_frequent_def Let_def tied_head_first)
qed

lemma mode_head_most_frequent:
  assumes "mode s = m # rest"
  shows "m \<in> set (non_null s) \<and> (\<forall>v. count_list (non_null s) v \<le> count_list (non_null s) m)"
proof -
  have "m \<in> set (mode s)" using assms by simp
  then have "m \<in> set (non_null s)" "count_list (non_null s) m = max_count (non_null s)"
    by (simp_all add: set_mode)
  then show ?thesis using count_le_max_count by metis
qed

subsection \<open>The button, path by path\<close>

lemma apply_cleaning_drop: "apply_cleaning agg col DropRows df = dropna_subset col df"
  by (simp add: apply_cleaning_def)

lemma apply_cleaning_absent:
  "method \<noteq> DropRows \<Longrightarrow> col_index col (columns df) = None \<Longrightarrow>
     apply_cleaning agg col method df = (Inl (KeyError (Label col)), df)"
  by (simp add: apply_cleaning_def and_then_def getitem_def reading_def)

lemma apply_cleaning_fill:
  "method \<noteq> DropRows \<Longrightarrow> col_index col (columns df) = Some j \<Longrightarrow>
     apply_cleaning agg col method df =
       (case fill_value_of agg df j method of
          Inl e \<Rightarrow> (Inl e, df)
        | Inr v \<Rightarrow> (Inr (), set_series df j (fillna v (series df j))))"
  by (simp add: apply_cleaning_def and_then_def getitem_def reading_def writing_def
      series_dtype_def series_mean_def series_median_def series_mode0_def fillna_inplace_def
      fill_value_of_def split: sum.splits)

lemma fill_with_mode_eq:
  "fill_with_mode j df =
     (case mode0 (series df j) of
        Inl e \<Rightarrow> (Inl e, df)
      | Inr v \<Rightarrow> (Inr (), set_series df j (fillna v (series df j))))"
  by (simp add: fill_with_mode_def and_then_def series_mode0_def reading_def writing_def
      fillna_inplace_def split: sum.splits)

lemma apply_cleaning_Mode:
  "col_index col (columns df) = Some j \<Longrightarrow> apply_cleaning agg col Mode df = fill_with_mode j df"
  by (simp add: apply_cleaning_fill fill_with_mode_eq fill_value_of_def)

section \<open>Mode imputation\<close>

text \<open>
  Claim C1, as the code has it. For every Mode imputation on a column with at least one
  non-null value, the fill value is a most frequent value of the column's non-null
  entries. When several values are tied for most frequent, the one that sorts first
  (the smallest number, the first text in string order) is chosen, because pandas sorts
  the modes before the script takes label 0; only when the tied values cannot be sorted,
  numbers being tied with text, the one met first in row order is chosen. For a column
  with the values x, y, x, y it is x.
\<close>

theorem mode_fill_value:
  assumes "col_index col (columns df) = Some j"
    and "s = series df j" and "non_null s \<noteq> []"
  shows "\<exists>m. apply_cleaning agg col Mode df = (Inr (), set_series df j (fillna (Some m) s))
           \<and> m \<in> set (non_null s)
           \<and> (\<forall>v. count_list (non_null s) v \<le> count_list (non_null s) m)
           \<and> (sortable (tied (non_null s)) \<longrightarrow>
                (\<forall>v\<in>set (non_null s).
                   count_list (non_null s) v = count_list (non_null s) m \<longrightarrow> val_le m v))
           \<and> (\<not> sortable (tied (non_null s)) \<longrightarrow> first_most_frequent s = Some m)"
proof -
  from assms(3) obtain m ms where m: "mode s = m # ms" "mode0 s = Inr (Some m)"
    using mode0_Inr by blast
  have freq: "m \<in> set (non_null s)" "\<forall>v. count_list (non_null s) v \<le> count_list (non_null s) m"
    using mode_head_most_frequent [OF m(1)] by simp_all
  have mx: "count_list (non_null s) m = max_count (non_null s)"
    using m(1) set_mode [of s] by auto
  have least: "sortable (tied (non_null s)) \<longrightarrow>
      (\<forall>v\<in>set (non_null s).
         count_list (non_null s) v = count_list (non_null s) m \<longrightarrow> val_le m v)"
    using mode_head_least [OF _ m(1)] mx by simp
  have first: "\<not> sortable (tied (non_null s)) \<longrightarrow> first_most_frequent s = Some m"
    using mode_head_first [OF _ m(1)] by simp
  have "apply_cleaning agg col Mode df = (Inr (), set_series df j (fillna (Some m) s))"
    using assms(1,2) m(2) by (simp add: apply_cleaning_Mode fill_with_mode_eq)
  with freq least first show ?thesis by blast
qed

text \<open>
  A column of text with the values x, y, x, y and one missing cell: the page offers
  the fill, and the missing cell becomes x.
\<close>

theorem mode_fill_value_witness:
  "apply_cleaning sample_aggregates (Text ''tag'') Mode xy_frame =
     (Inr (),
      \<lparr>columns = [(Text ''tag'', Object)],
       rows = [[Some (Str ''x'')], [Some (Str ''y'')], [Some (Str ''x'')], [Some (Str ''y'')],
               [Some (Str ''x'')]]\<rparr>)"
proof -
  have 1: "col_index (Text ''tag'') (columns xy_frame) = Some 0" by (simp add: xy_frame_def)
  have 2: "xy_column = series xy_frame 0" by (simp add: series_def xy_frame_def xy_column_def)
  have 3: "non_null xy_column \<noteq> []" by (simp add: xy_column_def)
  have 5: "count_list (non_null xy_column) (Str ''y'') = 2"
    "count_list (non_null xy_column) (Str ''x'') = 2"
    "set (non_null xy_column) = {Str ''x'', Str ''y''}"
    by (auto simp: xy_column_def)
  have 6: "sortable (tied (non_null xy_column))"
    by (simp add: sortable_def tied_def max_count_def xy_column_def)
  from mode_fill_value [OF 1 2 3, of sample_aggregates] 6 obtain m where
    m: "apply_cleaning sample_aggregates (Text ''tag'') Mode xy_frame =
          (Inr (), set_series xy_frame 0 (fillna (Some m) xy_column))"
      "m \<in> set (non_null xy_column)"
      "\<forall>v\<in>set (non_null xy_column).
          count_list (non_null xy_column) v = count_list (non_null xy_column) m \<longrightarrow> val_le m v"
    by blast
  from m(2) 5(3) have "m = Str ''x'' \<or> m = Str ''y''" by auto
  moreover have "m \<noteq> Str ''y''"
  proof
    assume "m = Str ''y''"
    with m(3) 5 have "val_le (Str ''y'') (Str ''x'' :: real val)" by auto
    then show False by simp
  qed
  ultimately have "m = Str ''x''" by simp
  with m(1) show ?thesis
    by (simp add: set_series_def fillna_def xy_frame_def xy_column_def)
qed

text \<open>
  The column y, x, null, y, x: both values occur twice and y is met first, yet the
  missing cell is filled with x.
\<close>

theorem mode_first_seen_counterexample:
  "apply_cleaning sample_aggregates (Text ''tag'') Mode yx_frame =
     (Inr (),
      \<lparr>columns = [(Text ''tag'', Object)],
       rows = [[Some (Str ''y'')], [Some (Str ''x'')], [Some (Str ''x'')], [Some (Str ''y'')],
               [Some (Str ''x'')]]\<rparr>)
   \<and> first_most_frequent (series yx_frame 0) = Some (Str ''y'')"
proof -
  have 1: "col_index (Text ''tag'') (columns yx_frame) = Some 0" by (simp add: yx_frame_def)
  have 2: "series yx_frame 0 = yx_column" by (simp add: series_def yx_frame_def yx_column_def)
  have 3: "mode0 yx_column = Inr (Some (Str ''x''))"
    by (simp add: mode0_def mode_def tied_def max_count_def sort_values_def yx_column_def)
  have 4: "first_most_frequent yx_column = Some (Str ''y'')"
    by (simp add: first_most_frequent_def max_count_def yx_column_def)
  have "apply_cleaning sample_aggregates (Text ''tag'') Mode yx_frame =
      (Inr (), set_series yx_frame 0 (fillna (Some (Str ''x'')) yx_column))"
    using 1 2 3 by (simp add: apply_cleaning_Mode fill_with_mode_eq)
  then show ?thesis using 2 4
    by (simp add: set_series_def fillna_def yx_frame_def yx_column_def)
qed

section \<open>Categorical columns\<close>

text \<open>
  The \<^verbatim>\<open>else\<close> branch of the dtype test does not look at the method.
\<close>

lemma apply_cleaning_categorical:
  assumes "col_index col (columns df) = Some j" and "snd (columns df ! j) \<notin> {Int64, Float64}"
    and "method \<noteq> DropRows"
  shows "apply_cleaning agg col method df = fill_with_mode j df"
  using assms by (simp add: apply_cleaning_fill fill_with_mode_eq fill_value_of_def)

text \<open>
  Claim C2, as the code has it. For every cleaning action with one of the fill methods
  (Mean, Median or Mode) whose target column is categorical (its dtype is neither
  \<^verbatim>\<open>int64\<close> nor \<^verbatim>\<open>float64\<close>) and has a non-null value, whichever of the three was
  requested, the missing cells of the column are filled with the column's mode, a most
  frequent category, exactly as a Mode request does. Drop Rows is not a fill: it is
  decided before the dtype is looked at.
\<close>

theorem categorical_always_mode:
  assumes "col_index col (columns df) = Some j" and "snd (columns df ! j) \<notin> {Int64, Float64}"
    and "method \<noteq> DropRows" and "wf_frame df" and "non_null (series df j) \<noteq> []"
  shows "\<exists>m df'. apply_cleaning agg col method df = (Inr (), df')
           \<and> m \<in> set (non_null (series df j))
           \<and> (\<forall>v. count_list (non_null (series df j)) v \<le> count_list (non_null (series df j)) m)
           \<and> series df' j = fillna (Some m) (series df j)
           \<and> apply_cleaning agg col method df = apply_cleaning agg col Mode df"
proof -
  from assms(5) obtain m ms where m: "mode (series df j) = m # ms" "mode0 (series df j) = Inr (Some m)"
    using mode0_Inr by blast
  have j: "j < length (columns df)" using assms(1) col_index_Some by blast
  let ?df' = "set_series df j (fillna (Some m) (series df j))"
  have a: "apply_cleaning agg col method df = (Inr (), ?df')"
    using assms(1-3) m(2) by (simp add: apply_cleaning_categorical fill_with_mode_eq)
  have b: "apply_cleaning agg col Mode df = (Inr (), ?df')"
    using assms(1) m(2) by (simp add: apply_cleaning_Mode fill_with_mode_eq)
  have c: "series ?df' j = fillna (Some m) (series df j)"
    using assms(4) j by (simp add: series_set_series)
  show ?thesis using a b c mode_head_most_frequent [OF m(1)] by auto
qed

text \<open>
  Mean requested on the text column \<^verbatim>\<open>city\<close>.
\<close>

theorem categorical_always_mode_witness:
  "\<exists>m df'. apply_cleaning sample_aggregates (Text ''city'') Mean city_frame = (Inr (), df')
      \<and> m \<in> set (non_null (series city_frame 1))
      \<and> (\<forall>v. count_list (non_null (series city_frame 1)) v \<le> count_list (non_null (series city_frame 1)) m)
      \<and> series df' 1 = fillna (Some m) (series city_frame 1)
      \<and> apply_cleaning sample_aggregates (Text ''city'') Mean city_frame
          = apply_cleaning sample_aggregates (Text ''city'') Mode city_frame"
proof -
  have 1: "col_index (Text ''city'') (columns city_frame) = Some 1" by (simp add: city_frame_def)
  have 2: "snd (columns city_frame ! 1) \<notin> {Int64, Float64}" by (simp add: city_frame_def)
  have 3: "Mean \<noteq> DropRows" by simp
  have 4: "wf_frame city_frame" by (simp add: wf_frame_def city_frame_def)
  have 5: "non_null (series city_frame 1) \<noteq> []" by (simp add: series_def city_frame_def)
  show ?thesis by (rule categorical_always_mode [OF 1 2 3 4 5])
qed

text \<open>
  Drop Rows requested on the same text column: the row with the missing city is
  removed, nothing is filled.
\<close>

theorem drop_rows_categorical_counterexample:
  "apply_cleaning sample_aggregates (Text ''city'') DropRows city_frame \<noteq> fill_with_mode 1 city_frame
   \<and> apply_cleaning sample_aggregates (Text ''city'') DropRows city_frame =
       (Inr (),
        \<lparr>columns = [(Text ''id'', Int64), (Text ''city'', Object)],
         rows = [[Some (Num 1), Some (Str ''Oslo'')],
                 [Some (Num 3), Some (Str ''Oslo'')],
                 [Some (Num 4), Some (Str ''Bergen'')]]\<rparr>)"
proof -
  have "mode0 (series city_frame 1) = Inr (Some (Str ''Oslo''))"
    by (simp add: mode0_def mode_def tied_def max_count_def sort_values_def series_def
        city_frame_def)
  then have "fill_with_mode 1 city_frame =
      (Inr (), set_series city_frame 1 (fillna (Some (Str ''Oslo'')) (series city_frame 1)))"
    by (simp add: fill_with_mode_eq)
  then show ?thesis
    by (simp add: apply_cleaning_drop dropna_subset_def series_def set_series_def fillna_def
        city_frame_def)
qed

section \<open>Mean imputation\<close>

text \<open>
  In a numeric column the non-null cells are numbers, and they are the numbers the mean
  is taken over.
\<close>

lemma numbers_all_num: "list_all is_num (non_null s) \<Longrightarrow> map Num (numbers s) = non_null s"
  by (simp add: numbers_def nums_of_all)

text \<open>
  Claim C3, as the code has it. For every frame and numeric column \<open>col\<close> whose mean,
  as pandas computes it over the non-null values of the column, is a number \<open>m\<close> and not
  NaN (over a column without any value it is NaN), the Mean action yields a frame in
  which \<open>col\<close> has no null cell, every cell of \<open>col\<close> that was not null is unchanged, and
  every cell that was null holds \<open>m\<close>; the other columns, the column labels and the
  number of rows stay as they were.
\<close>

theorem mean_fill:
  assumes "wf_frame df" and "col_index col (columns df) = Some j"
    and "snd (columns df ! j) \<in> {Int64, Float64}"
    and "list_all is_num (non_null (series df j))"
    and "mean agg (numbers (series df j)) = Some m"
  shows "\<exists>df'. apply_cleaning agg col Mean df = (Inr (), df')
           \<and> map Num (numbers (series df j)) = non_null (series df j)
           \<and> columns df' = columns df \<and> length (rows df') = length (rows df)
           \<and> null_count (series df' j) = 0
           \<and> (\<forall>i<length (rows df).
                 series df' j ! i =
                   (case series df j ! i of None \<Rightarrow> Some (Num m) | Some v \<Rightarrow> Some v))
           \<and> (\<forall>k. k \<noteq> j \<longrightarrow> series df' k = series df k)"
proof -
  let ?s = "series df j"
  let ?df' = "set_series df j (fillna (Some (Num m)) ?s)"
  have j: "j < length (columns df)" using assms(2) col_index_Some by blast
  have a: "apply_cleaning agg col Mean df = (Inr (), ?df')"
    using assms(2,3,5) by (simp add: apply_cleaning_fill fill_value_of_def)
  have s': "series ?df' j = fillna (Some (Num m)) ?s"
    using assms(1) j by (simp add: series_set_series)
  have nulls: "null_count (series ?df' j) = 0"
    unfolding s' by (simp add: null_count_zero fillna_Some_no_null)
  have cells: "\<forall>i<length (rows df). series ?df' j ! i =
      (case ?s ! i of None \<Rightarrow> Some (Num m) | Some v \<Rightarrow> Some v)"
    unfolding s' by (simp add: fillna_nth)
  have others: "\<forall>k. k \<noteq> j \<longrightarrow> series ?df' k = series df k"
    by (simp add: series_set_series_other)
  have len: "length (rows ?df') = length (rows df)"
    by (simp add: length_rows_set_series)
  have nums: "map Num (numbers ?s) = non_null ?s"
    using assms(4) by (rule numbers_all_num)
  show ?thesis using a nulls cells others len nums by (intro exI [of _ ?df']) simp
qed

text \<open>
  The column age = 20, 30, null, 40, whose mean is 30, becomes 20, 30, 30, 40.
\<close>

theorem mean_fill_witness:
  "apply_cleaning sample_aggregates (Text ''age'') Mean age_frame =
     (Inr (),
      \<lparr>columns = [(Text ''age'', Float64)],
       rows = [[Some (Num 20)], [Some (Num 30)], [Some (Num 30)], [Some (Num 40)]]\<rparr>)"
proof -
  have 1: "wf_frame age_frame" by (simp add: wf_frame_def age_frame_def)
  have 2: "col_index (Text ''age'') (columns age_frame) = Some 0" by (simp add: age_frame_def)
  have 3: "snd (columns age_frame ! 0) \<in> {Int64, Float64}" by (simp add: age_frame_def)
  have 4: "list_all is_num (non_null (series age_frame 0))" by (simp add: series_def age_frame_def)
  have 5: "mean sample_aggregates (numbers (series age_frame 0)) = Some 30"
    by (simp add: sample_aggregates_def exact_mean_def numbers_def series_def age_frame_def)
  from mean_fill [OF 1 2 3 4 5] obtain df' where
    df': "apply_cleaning sample_aggregates (Text ''age'') Mean age_frame = (Inr (), df')"
      "columns df' = columns age_frame" "length (rows df') = length (rows age_frame)"
      "\<forall>i<length (rows age_frame).
          series df' 0 ! i =
            (case series age_frame 0 ! i of None \<Rightarrow> Some (Num 30) | Some v \<Rightarrow> Some v)"
    by blast
  have "apply_cleaning sample_aggregates (Text ''age'') Mean age_frame =
      (Inr (), set_series age_frame 0 (fillna (Some (Num 30)) (series age_frame 0)))"
    using 2 3 5 by (simp add: apply_cleaning_fill fill_value_of_def)
  then show ?thesis using df'(1)
    by (simp add: series_def set_series_def fillna_def age_frame_def)
qed

text \<open>
  A numeric column with no value at all: its mean is NaN, filling with NaN fills
  nothing, and both cells are still null after the action.
\<close>

theorem mean_fill_all_null_counterexample:
  "apply_cleaning sample_aggregates (Text ''age'') Mean empty_age_frame = (Inr (), empty_age_frame)
   \<and> null_count (series empty_age_frame 0) = 2"
proof -
  have 2: "col_index (Text ''age'') (columns empty_age_frame) = Some 0"
    by (simp add: empty_age_frame_def)
  have 3: "snd (columns empty_age_frame ! 0) \<in> {Int64, Float64}" by (simp add: empty_age_frame_def)
  have 5: "mean sample_aggregates (numbers (series empty_age_frame 0)) = None"
    by (simp add: sample_aggregates_def exact_mean_def numbers_def series_def empty_age_frame_def)
  have "apply_cleaning sample_aggregates (Text ''age'') Mean empty_age_frame =
      (Inr (), set_series empty_age_frame 0 (fillna None (series empty_age_frame 0)))"
    using 2 3 5 by (simp add: apply_cleaning_fill fill_value_of_def)
  then show ?thesis
    by (simp add: series_def set_series_def fillna_def null_count_def empty_age_frame_def)
qed

section \<open>Removing duplicate rows\<close>

text \<open>
  Selecting rows by a Boolean mask.
\<close>

lemma select_Cons [simp]:
  "select (b # bs) (x # xs) = (if b then x # select bs xs else select bs xs)"
  by (simp add: select_def)

lemma select_Nil [simp]: "select [] xs = []" "select bs [] = []"
  by (simp_all add: select_def)

lemma length_select_le: "length (select bs xs) \<le> length xs"
proof -
  have "length (select bs xs) \<le> length (zip bs xs)"
    unfolding select_def length_map by (rule length_filter_le)
  also have "\<dots> \<le> length xs" by simp
  finally show ?thesis .
qed

lemma length_duplicated_from [simp]: "length (duplicated_from seen rs) = length rs"
  by (induction rs arbitrary: seen) auto

lemma select_all:
  "length bs = length xs \<Longrightarrow> \<forall>b\<in>set bs. b \<Longrightarrow> select bs xs = xs"
  by (induction bs xs rule: list_induct2) auto

lemma upt_Suc_shift: "[0..<Suc n] = 0 # map Suc [0..<n]"
  by (simp add: upt_conv_Cons map_Suc_upt del: upt_Suc)

lemma select_not_duplicated:
  "select (map Not (duplicated_from seen rs)) rs =
     map (\<lambda>i. rs ! i) (filter (\<lambda>i. rs ! i \<notin> set seen \<union> set (take i rs)) [0..<length rs])"
proof (induction rs arbitrary: seen)
  case Nil
  then show ?case by simp
next
  case (Cons r rs)
  have "map (\<lambda>i. (r # rs) ! i)
          (filter (\<lambda>i. (r # rs) ! i \<notin> set seen \<union> set (take i (r # rs))) (map Suc [0..<length rs]))
        = map (\<lambda>i. rs ! i)
          (filter (\<lambda>i. rs ! i \<notin> set (seen @ [r]) \<union> set (take i rs)) [0..<length rs])"
    by (simp add: filter_map comp_def conj_commute conj_left_commute)
  then show ?case
    using Cons.IH [of "seen @ [r]"]
    by (simp add: upt_Suc_shift conj_commute conj_left_commute del: upt_Suc)
qed

lemma earlier_rows: "i \<le> length rs \<Longrightarrow>
  list_all (\<lambda>j. rs ! j \<noteq> rs ! i) [0..<i] \<longleftrightarrow> rs ! i \<notin> set (take i rs)"
  by (auto simp: list_all_iff in_set_conv_nth)

lemma first_occurrences_alt:
  "first_occurrences rs =
     map (\<lambda>i. rs ! i) (filter (\<lambda>i. rs ! i \<notin> set [] \<union> set (take i rs)) [0..<length rs])"
proof -
  have "filter (\<lambda>i. list_all (\<lambda>j. rs ! j \<noteq> rs ! i) [0..<i]) [0..<length rs]
      = filter (\<lambda>i. rs ! i \<notin> set [] \<union> set (take i rs)) [0..<length rs]"
    by (rule filter_cong) (auto simp: earlier_rows)
  then show ?thesis unfolding first_occurrences_def by (rule arg_cong)
qed

lemma rows_drop_duplicates: "rows (drop_duplicates df) = first_occurrences (rows df)"
proof -
  have "rows (drop_duplicates df) = select (map Not (duplicated_from [] (rows df))) (rows df)"
    by (simp add: drop_duplicates_def duplicated_def)
  then show ?thesis
    by (simp only: select_not_duplicated first_occurrences_alt)
qed

lemma columns_drop_duplicates [simp]: "columns (drop_duplicates df) = columns df"
  by (simp add: drop_duplicates_def)

lemma no_duplicates_unchanged:
  assumes "length (filter id (duplicated df)) = 0"
  shows "drop_duplicates df = df"
proof -
  have "\<forall>b\<in>set (map Not (duplicated df)). b"
    using assms by (auto simp: filter_empty_conv)
  then have "select (map Not (duplicated df)) (rows df) = rows df"
    by (intro select_all) (simp_all add: duplicated_def)
  then show ?thesis by (simp add: drop_duplicates_def)
qed

text \<open>
  Claim C4. For every frame, the Remove Duplicate Rows action leaves exactly the rows
  that differ, in some column, from every row above them, in their original order: it
  removes the rows equal to an earlier row and keeps the first occurrence of each. The
  columns stay. When no row is a duplicate the button is not offered and the frame
  stays as it is, which is the same result.
\<close>

theorem drop_duplicates_keeps_first:
  "rows (fst (remove_duplicates_section df True)) = first_occurrences (rows df)
   \<and> columns (fst (remove_duplicates_section df True)) = columns df"
proof (cases "length (filter id (duplicated df)) = 0")
  case True
  then have "drop_duplicates df = df" by (rule no_duplicates_unchanged)
  then have "rows df = first_occurrences (rows df)" using rows_drop_duplicates [of df] by simp
  with True show ?thesis by (simp add: remove_duplicates_section_def)
next
  case False
  then show ?thesis
    by (simp add: remove_duplicates_section_def Let_def rows_drop_duplicates)
qed

text \<open>
  The rows (1, a), (1, a), (2, b) become (1, a), (2, b).
\<close>

theorem drop_duplicates_keeps_first_witness:
  "rows (fst (remove_duplicates_section pairs_frame True)) =
     [[Some (Num 1), Some (Str ''a'')], [Some (Num 2), Some (Str ''b'')]]"
proof -
  have "first_occurrences (rows pairs_frame) =
     [[Some (Num 1), Some (Str ''a'')], [Some (Num 2), Some (Str ''b'')]]"
    by (simp add: first_occurrences_def pairs_frame_def upt_Suc_shift del: upt_Suc)
  then show ?thesis using drop_duplicates_keeps_first [of pairs_frame] by simp
qed

section \<open>Dropping rows\<close>

text \<open>
  Claim C9. For every frame and every column \<open>C\<close> of it, numeric or categorical, the
  Drop Rows method removes exactly the rows whose cell in \<open>C\<close> is null: the rows that
  remain are rows of the frame, unchanged and in their order, so nothing is filled with
  a mode. The statement holds whatever the dtype of \<open>C\<close> is.
\<close>

theorem drop_rows_exact:
  assumes "col_index C (columns df) = Some j"
  shows "\<exists>df'. apply_cleaning agg C DropRows df = (Inr (), df')
           \<and> columns df' = columns df
           \<and> rows df' = filter (\<lambda>r. r ! j \<noteq> None) (rows df)
           \<and> null_count (series df' j) = 0
           \<and> set (rows df') \<subseteq> set (rows df)"
  using assms
  by (auto simp: apply_cleaning_drop dropna_subset_def null_count_zero series_def)

text \<open>
  Drop Rows on the text column \<^verbatim>\<open>city\<close>.
\<close>

theorem drop_rows_exact_witness:
  "apply_cleaning sample_aggregates (Text ''city'') DropRows city_frame =
     (Inr (),
      \<lparr>columns = [(Text ''id'', Int64), (Text ''city'', Object)],
       rows = [[Some (Num 1), Some (Str ''Oslo'')],
               [Some (Num 3), Some (Str ''Oslo'')],
               [Some (Num 4), Some (Str ''Bergen'')]]\<rparr>)"
proof -
  have 1: "col_index (Text ''city'') (columns city_frame) = Some 1" by (simp add: city_frame_def)
  from drop_rows_exact [OF 1, of sample_aggregates] obtain df' where
    "apply_cleaning sample_aggregates (Text ''city'') DropRows city_frame = (Inr (), df')"
    "columns df' = columns city_frame"
    "rows df' = filter (\<lambda>r. r ! 1 \<noteq> None) (rows city_frame)"
    by blast
  then show ?thesis by (simp add: city_frame_def)
qed

section \<open>Columns and row count\<close>

text \<open>
  What a successful cleaning action leaves in place.
\<close>

lemma apply_cleaning_shape:
  assumes "apply_cleaning agg col method df = (Inr u, df')"
  shows "columns df' = columns df \<and> length (rows df') \<le> length (rows df)
         \<and> (method \<noteq> DropRows \<longrightarrow> length (rows df') = length (rows df))"
proof (cases "method = DropRows")
  case True
  with assms show ?thesis
    by (auto simp: apply_cleaning_drop dropna_subset_def split: option.splits)
next
  case False
  then obtain j where j: "col_index col (columns df) = Some j"
    using assms apply_cleaning_absent [of "method" col df agg]
    by (cases "col_index col (columns df)") auto
  with False assms obtain v where "df' = set_series df j (fillna v (series df j))"
    by (auto simp: apply_cleaning_fill split: sum.splits)
  with False show ?thesis by (simp add: length_rows_set_series)
qed

lemma set_select_subset: "set (select bs xs) \<subseteq> set xs"
  by (auto simp: select_def dest: set_zip_rightD)

lemma filled_row:
  "i < length (rows df) \<Longrightarrow>
     rows (set_series df j (fillna v (series df j))) ! i =
       (rows df ! i)[j := (case rows df ! i ! j of None \<Rightarrow> v | Some w \<Rightarrow> Some w)]"
  by (simp add: set_series_def fillna_def series_def)

lemma filled_cell:
  assumes "i < length (rows df)" and "rows df ! i ! k \<noteq> None"
  shows "rows (set_series df j (fillna v (series df j))) ! i ! k = rows df ! i ! k"
proof -
  let ?r = "rows df ! i"
  let ?x = "case ?r ! j of None \<Rightarrow> v | Some w \<Rightarrow> Some w"
  have "?r[j := ?x] ! k = ?r ! k"
  proof (cases "j < length ?r")
    case True
    then show ?thesis using assms(2) by (cases "k = j") auto
  next
    case False
    then have "length ?r \<le> j" by simp
    then have "?r[j := ?x] = ?r" by (rule list_update_beyond)
    then show ?thesis by simp
  qed
  then show ?thesis using assms(1) by (simp only: filled_row)
qed

lemma apply_cleaning_cells:
  assumes "apply_cleaning agg col method df = (Inr u, df')"
  shows "(method = DropRows \<longrightarrow> set (rows df') \<subseteq> set (rows df))
       \<and> (method \<noteq> DropRows \<longrightarrow>
            (\<forall>i<length (rows df). \<forall>k. rows df ! i ! k \<noteq> None \<longrightarrow>
               rows df' ! i ! k = rows df ! i ! k))"
proof (cases "method = DropRows")
  case True
  with assms show ?thesis
    by (auto simp: apply_cleaning_drop dropna_subset_def split: option.splits)
next
  case False
  then obtain j where j: "col_index col (columns df) = Some j"
    using assms apply_cleaning_absent [of "method" col df agg]
    by (cases "col_index col (columns df)") auto
  with False assms obtain v where "df' = set_series df j (fillna v (series df j))"
    by (auto simp: apply_cleaning_fill split: sum.splits)
  with False show ?thesis by (simp add: filled_cell)
qed

text \<open>
  A cleaning action that raises has not written to the frame: in every path of the
  button the write is the last statement.
\<close>

lemma apply_cleaning_raises_unchanged:
  assumes "apply_cleaning agg col method df = (Inl e, df')"
  shows "df' = df"
proof (cases "method = DropRows")
  case True
  with assms show ?thesis
    by (auto simp: apply_cleaning_drop dropna_subset_def split: option.splits)
next
  case False
  show ?thesis
  proof (cases "col_index col (columns df)")
    case None
    with False assms show ?thesis by (simp add: apply_cleaning_absent)
  next
    case (Some j)
    with False assms show ?thesis by (auto simp: apply_cleaning_fill split: sum.splits)
  qed
qed

text \<open>
  Claim C10. Every cleaning action (a fill with Mean, Median or Mode, Drop Rows, the
  removal of duplicate rows), whether it succeeds or raises, leaves the column labels
  of the frame as they were, in their order, and never leaves more rows than there
  were: Drop Rows and the removal of duplicates leave rows of the frame only, and a
  fill leaves every cell that held a value as it was.
\<close>

theorem cleaning_keeps_columns:
  "map fst (columns (fst (on_apply_cleaning agg df col method))) = map fst (columns df)
   \<and> length (rows (fst (on_apply_cleaning agg df col method))) \<le> length (rows df)
   \<and> (method = DropRows \<longrightarrow>
        set (rows (fst (on_apply_cleaning agg df col method))) \<subseteq> set (rows df))
   \<and> (method \<noteq> DropRows \<longrightarrow>
        (\<forall>i<length (rows df). \<forall>k. rows df ! i ! k \<noteq> None \<longrightarrow>
           rows (fst (on_apply_cleaning agg df col method)) ! i ! k = rows df ! i ! k))
   \<and> map fst (columns (fst (remove_duplicates_section df clicked))) = map fst (columns df)
   \<and> length (rows (fst (remove_duplicates_section df clicked))) \<le> length (rows df)
   \<and> set (rows (fst (remove_duplicates_section df clicked))) \<subseteq> set (rows df)"
proof -
  define d where "d = fst (on_apply_cleaning agg df col method)"
  obtain r df' where r: "apply_cleaning agg col method df = (r, df')"
    by (cases "apply_cleaning agg col method df") auto
  have a: "columns d = columns df \<and> length (rows d) \<le> length (rows df)
      \<and> (method = DropRows \<longrightarrow> set (rows d) \<subseteq> set (rows df))
      \<and> (method \<noteq> DropRows \<longrightarrow>
        (\<forall>i<length (rows df). \<forall>k. rows df ! i ! k \<noteq> None \<longrightarrow>
           rows d ! i ! k = rows df ! i ! k))"
  proof (cases r)
    case (Inl e)
    with r have "df' = df" using apply_cleaning_raises_unchanged by blast
    with r Inl have "d = df" by (simp add: d_def on_apply_cleaning_def)
    then show ?thesis by simp
  next
    case (Inr u)
    with r have "d = df'" by (simp add: d_def on_apply_cleaning_def)
    then show ?thesis
      using apply_cleaning_shape [of agg col "method" df u df']
        apply_cleaning_cells [of agg col "method" df u df'] r Inr by simp
  qed
  have "length (rows (drop_duplicates df)) \<le> length (rows df)"
    "set (rows (drop_duplicates df)) \<subseteq> set (rows df)"
    by (simp_all add: drop_duplicates_def length_select_le set_select_subset)
  then have b: "columns (fst (remove_duplicates_section df clicked)) = columns df
      \<and> length (rows (fst (remove_duplicates_section df clicked))) \<le> length (rows df)
      \<and> set (rows (fst (remove_duplicates_section df clicked))) \<subseteq> set (rows df)"
    by (simp add: remove_duplicates_section_def Let_def)
  from a b show ?thesis unfolding d_def by simp
qed

text \<open>
  Drop Rows on the frame of cities and the removal of duplicates on the frame of pairs.
\<close>

theorem cleaning_keeps_columns_witness:
  "map fst (columns (fst (on_apply_cleaning sample_aggregates city_frame (Text ''city'') DropRows)))
     = [Text ''id'', Text ''city'']
   \<and> length (rows (fst (on_apply_cleaning sample_aggregates city_frame (Text ''city'') DropRows))) \<le> 4
   \<and> map fst (columns (fst (remove_duplicates_section pairs_frame True))) = [Text ''k'', Text ''s'']
   \<and> length (rows (fst (remove_duplicates_section pairs_frame True))) \<le> 3"
  using cleaning_keeps_columns [of sample_aggregates city_frame "Text ''city''" DropRows True]
    cleaning_keeps_columns [of sample_aggregates pairs_frame "Text ''k''" Mean True]
  by (simp add: city_frame_def pairs_frame_def)

section \<open>Requests that fail\<close>












section \<open>Loading a file\<close>

text \<open>
  A name ends in at most one of the three suffixes the loader looks at.
\<close>

lemma endswith_last: "endswith s suffix \<Longrightarrow> suffix \<noteq> [] \<Longrightarrow> last s = last suffix"
proof -
  assume e: "endswith s suffix" and ne: "suffix \<noteq> []"
  have "s = take (length s - length suffix) s @ suffix"
    using e by (metis append_take_drop_id endswith_def)
  then show ?thesis using ne by (metis last_append)
qed

lemma excel_not_csv:
  "endswith n ''.xls'' \<or> endswith n ''.xlsx'' \<Longrightarrow> \<not> endswith n ''.csv''"
  using endswith_last [of n "''.xls''"] endswith_last [of n "''.xlsx''"]
    endswith_last [of n "''.csv''"]
  by auto

text \<open>
  Claim C5, as the code has it. For every uploaded file, \<^verbatim>\<open>load_data\<close> returns the
  parsed frame when the name ends in \<^verbatim>\<open>.csv\<close> and the CSV parser succeeds, or ends in
  \<^verbatim>\<open>.xls\<close> or \<^verbatim>\<open>.xlsx\<close> and the spreadsheet parser succeeds; when the parser raises
  it returns no frame and shows an error message that carries the reason; for any other
  suffix it returns no frame and shows nothing.
\<close>

theorem load_data_dispatch:
  "(endswith (name upload) ''.csv'' \<and> read_csv (content upload) = Inr df \<longrightarrow>
      load_data read_csv read_excel upload = (Some df, []))
   \<and> ((endswith (name upload) ''.xls'' \<or> endswith (name upload) ''.xlsx'')
        \<and> read_excel (content upload) = Inr df \<longrightarrow>
      load_data read_csv read_excel upload = (Some df, []))
   \<and> (endswith (name upload) ''.csv'' \<and> read_csv (content upload) = Inl reason \<longrightarrow>
      load_data read_csv read_excel upload = (None, [ErrorMsg (''Error reading file: '' @ reason)]))
   \<and> ((endswith (name upload) ''.xls'' \<or> endswith (name upload) ''.xlsx'')
        \<and> read_excel (content upload) = Inl reason \<longrightarrow>
      load_data read_csv read_excel upload = (None, [ErrorMsg (''Error reading file: '' @ reason)]))
   \<and> (\<not> endswith (name upload) ''.csv'' \<and> \<not> endswith (name upload) ''.xls''
        \<and> \<not> endswith (name upload) ''.xlsx'' \<longrightarrow>
      load_data read_csv read_excel upload = (None, []))"
  using excel_not_csv [of "name upload"]
  by (auto simp: load_data_def)

text \<open>
  A \<^verbatim>\<open>.csv\<close> upload with a parser that accepts it, with one that rejects it, and a
  \<^verbatim>\<open>.txt\<close> upload.
\<close>

theorem load_data_dispatch_witness:
  "load_data accepting_parser rejecting_parser csv_upload = (Some pairs_frame, [])
   \<and> load_data rejecting_parser accepting_parser csv_upload =
       (None, [ErrorMsg ''Error reading file: No columns to parse from file''])
   \<and> load_data accepting_parser accepting_parser text_upload = (None, [])"
proof -
  have 1: "endswith (name csv_upload) ''.csv''" by (simp add: endswith_def csv_upload_def)
  have 2: "accepting_parser (content csv_upload) = Inr pairs_frame"
    by (simp add: accepting_parser_def)
  have 3: "rejecting_parser (content csv_upload) = Inl ''No columns to parse from file''"
    by (simp add: rejecting_parser_def)
  have 4: "\<not> endswith (name text_upload) ''.csv'' \<and> \<not> endswith (name text_upload) ''.xls''
        \<and> \<not> endswith (name text_upload) ''.xlsx''"
    by (simp add: endswith_def text_upload_def)
  show ?thesis
    using load_data_dispatch [where upload = csv_upload and read_csv = accepting_parser
        and read_excel = rejecting_parser and df = pairs_frame] 1 2
      load_data_dispatch [where upload = csv_upload and read_csv = rejecting_parser
        and read_excel = accepting_parser and reason = "''No columns to parse from file''"] 3
      load_data_dispatch [where upload = text_upload and read_csv = accepting_parser
        and read_excel = accepting_parser] 4
    by simp
qed

text \<open>
  The \<^verbatim>\<open>.txt\<close> upload: no frame, and no error with a reason either.
\<close>

theorem load_other_suffix_counterexample:
  "load_data accepting_parser accepting_parser text_upload = (None, [])
   \<and> \<not> list_ex is_error (snd (load_data accepting_parser accepting_parser text_upload))"
  by (simp add: load_data_def endswith_def text_upload_def)

section \<open>Charts and eligible columns\<close>

text \<open>
  A select box without options selects nothing, and nothing is drawn for it.
\<close>

lemma selectbox_empty [simp]: "selectbox [] index pick = PyNone"
  by (simp add: selectbox_def)

lemma plot_one_None [simp]: "plot_one kind df PyNone = []"
  by (simp add: plot_one_def)






end
